theory Spec2Isabelle
  imports Main
begin

section \<open>The facets package: a filter-expression builder\<close>

text \<open>
  The package builds the value of the \<open>facets\<close> query parameter of a search request.
  A comparison (\<open>facetProp\<close>) collects rendered clauses for one key; a builder
  (\<open>facets\<close>) collects groups of comparisons and prints them as a bracketed list of
  bracketed lists.

  Both kinds of objects are used through pointers in the Go source: every operator
  method changes its receiver in place and returns it, and a builder keeps the
  pointers it was given, not copies. The model therefore has an explicit store, and
  every function of the package is a store transformer that may panic.
\<close>

subsection \<open>Objects and the store\<close>

text \<open>
  \<open>type facetProp struct { key string; state []string }\<close>. A Go string is a byte
  sequence, as \<^typ>\<open>string\<close> is; a \<open>nil\<close> slice and an empty one are both \<open>[]\<close>.
\<close>

record facetProp =
  key :: string
  state :: "string list"

text \<open>
  A value of the interface \<open>FacetProp\<close> is a pointer to a \<open>facetProp\<close>, the only
  implementation in the package: an address in the store. \<open>propList\<close> is
  \<open>[]FacetProp\<close>.
\<close>

type_synonym FacetProp = nat

type_synonym propList = "FacetProp list"

text \<open>
  \<open>type facets struct { state []string; props []propList }\<close>. The field \<open>state\<close>
  of the builder is never read or written by the package; it is \<open>facets_state\<close> here,
  since the comparison has a field of the same name.
\<close>

record facets =
  facets_state :: "string list"
  props :: "propList list"

type_synonym FacetsBuilder = nat

text \<open>
  The store holds the objects allocated so far, each kind in allocation order; an
  address is an index. Allocation appends, so an address is never reused.
\<close>

record store =
  propObjs :: "facetProp list"
  facetsObjs :: "facets list"

definition emptyStore :: store where
  "emptyStore = \<lparr>propObjs = [], facetsObjs = []\<rparr>"

text \<open>
  The package has no error returns. The one way a call can fail is Go's run-time
  panic on a field access through a pointer that points to no object (\<open>nil\<close>); in
  the model that is an address with no object in the store.
\<close>

datatype panic = NilDereference

type_synonym 'a prog = "store \<Rightarrow> panic + ('a \<times> store)"

definition retP :: "'a \<Rightarrow> 'a prog" where
  "retP x s = Inr (x, s)"

definition bindP :: "'a prog \<Rightarrow> ('a \<Rightarrow> 'b prog) \<Rightarrow> 'b prog" where
  "bindP m k s = (case m s of Inl e \<Rightarrow> Inl e | Inr (x, s') \<Rightarrow> k x s')"

definition newProp :: "facetProp \<Rightarrow> FacetProp prog" where
  "newProp v s = Inr (length (propObjs s), s\<lparr>propObjs := propObjs s @ [v]\<rparr>)"

definition loadProp :: "FacetProp \<Rightarrow> facetProp prog" where
  "loadProp f s =
     (if f < length (propObjs s) then Inr (propObjs s ! f, s) else Inl NilDereference)"

definition storeProp :: "FacetProp \<Rightarrow> facetProp \<Rightarrow> unit prog" where
  "storeProp f v s =
     (if f < length (propObjs s) then Inr ((), s\<lparr>propObjs := (propObjs s)[f := v]\<rparr>)
      else Inl NilDereference)"

definition newFacets :: "facets \<Rightarrow> FacetsBuilder prog" where
  "newFacets v s = Inr (length (facetsObjs s), s\<lparr>facetsObjs := facetsObjs s @ [v]\<rparr>)"

definition loadFacets :: "FacetsBuilder \<Rightarrow> facets prog" where
  "loadFacets f s =
     (if f < length (facetsObjs s) then Inr (facetsObjs s ! f, s) else Inl NilDereference)"

definition storeFacets :: "FacetsBuilder \<Rightarrow> facets \<Rightarrow> unit prog" where
  "storeFacets f v s =
     (if f < length (facetsObjs s) then Inr ((), s\<lparr>facetsObjs := (facetsObjs s)[f := v]\<rparr>)
      else Inl NilDereference)"

subsection \<open>The library functions the package calls\<close>

text \<open>
  \<open>strings.Join(elems, sep)\<close>: the elements in order, \<open>sep\<close> between each two
  neighbours; the empty string for no element, the element itself for one.
\<close>

fun Join :: "string list \<Rightarrow> string \<Rightarrow> string" where
  "Join [] sep = []"
| "Join [e] sep = e"
| "Join (e # es) sep = e @ sep @ Join es sep"

text \<open>
  \<open>fmt.Sprintf(format, args...)\<close> for string operands. Only the verb \<open>%s\<close> is
  modelled, which prints a string operand byte for byte; it is the only verb in the
  format strings of the package, and every other byte of a format is copied. A verb
  with no operand left prints \<open>%!s(MISSING)\<close>, and operands left over at the end
  are reported as \<open>%!(EXTRA string=..., string=...)\<close>.
\<close>

fun Sprintf :: "string \<Rightarrow> string list \<Rightarrow> string" where
  "Sprintf [] args =
     (if args = [] then []
      else ''%!(EXTRA '' @ Join (map (\<lambda>a. ''string='' @ a) args) '', '' @ '')'')"
| "Sprintf [c] args = c # Sprintf [] args"
| "Sprintf (c # d # fmt) args =
     (if c = CHR ''%'' \<and> d = CHR ''s'' then
        (case args of
           [] \<Rightarrow> ''%!s(MISSING)'' @ Sprintf fmt []
         | a # as \<Rightarrow> a @ Sprintf fmt as)
      else c # Sprintf (d # fmt) args)"

text \<open>
  \<open>lo.Map(collection, iteratee)\<close> calls \<open>iteratee(item, index)\<close> on each item from
  the first to the last and returns the results in the same order. The iteratee is
  a Go closure, so it runs in the store and may panic; a panic ends the loop.
\<close>

fun lo_Map_from :: "nat \<Rightarrow> 'a list \<Rightarrow> ('a \<Rightarrow> nat \<Rightarrow> 'r prog) \<Rightarrow> 'r list prog" where
  "lo_Map_from i [] iteratee = retP []"
| "lo_Map_from i (x # xs) iteratee =
     bindP (iteratee x i) (\<lambda>r.
     bindP (lo_Map_from (Suc i) xs iteratee) (\<lambda>rs.
     retP (r # rs)))"

definition lo_Map :: "'a list \<Rightarrow> ('a \<Rightarrow> nat \<Rightarrow> 'r prog) \<Rightarrow> 'r list prog" where
  "lo_Map collection iteratee = lo_Map_from 0 collection iteratee"

subsection \<open>Comparisons\<close>

text \<open>
  \<open>newFacetProp(key)\<close> returns a constructor function; calling that function
  allocates \<open>&facetProp{key: key}\<close>. \<open>newFacetProp key\<close> below is the returned
  function, a program that allocates when it is run.
\<close>

definition newFacetProp :: "string \<Rightarrow> FacetProp prog" where
  "newFacetProp k = newProp \<lparr>key = k, state = []\<rparr>"

definition ProjectType :: "FacetProp prog" where
  "ProjectType = newFacetProp ''project_type''"

definition Versions :: "FacetProp prog" where
  "Versions = newFacetProp ''versions''"

definition Categories :: "FacetProp prog" where
  "Categories = newFacetProp ''categories''"

definition ClientSide :: "FacetProp prog" where
  "ClientSide = newFacetProp ''client_side''"

definition ServerSide :: "FacetProp prog" where
  "ServerSide = newFacetProp ''server_side''"

definition OpenSource :: "FacetProp prog" where
  "OpenSource = newFacetProp ''open_source''"

text \<open>\<open>func (f *facetProp) String() string { return strings.Join(f.state, `,`) }\<close>\<close>

definition facetProp_String :: "FacetProp \<Rightarrow> string prog" where
  "facetProp_String f = bindP (loadProp f) (\<lambda>obj. retP (Join (state obj) '',''))"

text \<open>
  The body of the loop of an operator method,
  \<open>f.state = append(f.state, fmt.Sprintf(format, f.key, v))\<close>,
  and the loop \<open>for _, v := range s\<close> around it. With no operand the receiver is
  never dereferenced.
\<close>

definition appendClause :: "string \<Rightarrow> FacetProp \<Rightarrow> string \<Rightarrow> unit prog" where
  "appendClause format f v =
     bindP (loadProp f) (\<lambda>obj.
     storeProp f (obj\<lparr>state := state obj @ [Sprintf format [key obj, v]]\<rparr>))"

fun rangeAppend :: "string \<Rightarrow> FacetProp \<Rightarrow> string list \<Rightarrow> unit prog" where
  "rangeAppend format f [] = retP ()"
| "rangeAppend format f (v # vs) =
     bindP (appendClause format f v) (\<lambda>_. rangeAppend format f vs)"

definition Equal :: "FacetProp \<Rightarrow> string list \<Rightarrow> FacetProp prog" where
  \<open>Equal f s = bindP (rangeAppend ''"%s=%s"'' f s) (\<lambda>_. retP f)\<close>

definition NotEqual :: "FacetProp \<Rightarrow> string list \<Rightarrow> FacetProp prog" where
  \<open>NotEqual f s = bindP (rangeAppend ''"%s!=%s"'' f s) (\<lambda>_. retP f)\<close>

definition Less :: "FacetProp \<Rightarrow> string list \<Rightarrow> FacetProp prog" where
  \<open>Less f s = bindP (rangeAppend ''"%s<%s"'' f s) (\<lambda>_. retP f)\<close>

definition LessOrEqual :: "FacetProp \<Rightarrow> string list \<Rightarrow> FacetProp prog" where
  \<open>LessOrEqual f s = bindP (rangeAppend ''"%s<=%s"'' f s) (\<lambda>_. retP f)\<close>

definition Greater :: "FacetProp \<Rightarrow> string list \<Rightarrow> FacetProp prog" where
  \<open>Greater f s = bindP (rangeAppend ''"%s>%s"'' f s) (\<lambda>_. retP f)\<close>

definition GreaterOrEqual :: "FacetProp \<Rightarrow> string list \<Rightarrow> FacetProp prog" where
  \<open>GreaterOrEqual f s = bindP (rangeAppend ''"%s>=%s"'' f s) (\<lambda>_. retP f)\<close>

subsection \<open>Groups and the builder\<close>

text \<open>
  \<open>func (p propList) String() string\<close>: \<open>lo.Map\<close> over the members with
  \<open>p.String()\<close>, then \<open>strings.Join(s, ",")\<close>.
\<close>

definition propList_String :: "propList \<Rightarrow> string prog" where
  "propList_String p =
     bindP (lo_Map p (\<lambda>p _. facetProp_String p)) (\<lambda>s. retP (Join s '',''))"

text \<open>
  \<open>func (f *facets) And(props ...FacetProp) FacetsBuilder\<close>:
  \<open>f.props = append(f.props, props)\<close>, one new group holding the pointers given.
  The group is kept as the sequence of pointers it is at the call; a caller that
  passes a slice of its own with \<open>s...\<close> and overwrites it afterwards is not
  modelled.
\<close>

definition And :: "FacetsBuilder \<Rightarrow> propList \<Rightarrow> FacetsBuilder prog" where
  "And f ps =
     bindP (loadFacets f) (\<lambda>obj.
     bindP (storeFacets f (obj\<lparr>props := props obj @ [ps]\<rparr>)) (\<lambda>_.
     retP f))"

text \<open>
  \<open>func New(props ...FacetProp) FacetsBuilder\<close>: \<open>f := &facets{}\<close>, and
  \<open>f.And(props...)\<close> only when \<open>len(props) != 0\<close>.
\<close>

definition New :: "propList \<Rightarrow> FacetsBuilder prog" where
  "New ps =
     bindP (newFacets \<lparr>facets_state = [], props = []\<rparr>) (\<lambda>f.
     if length ps \<noteq> 0 then bindP (And f ps) (\<lambda>_. retP f) else retP f)"

text \<open>
  \<open>func (f *facets) String() string\<close>: \<open>lo.Map\<close> over \<open>f.props\<close> with the closure
  \<open>func(e propList, _ int) string { return fmt.Sprintf(`[%s]`, e.String()) }\<close>,
  named \<open>facets_String_group\<close> here, then
  \<open>fmt.Sprintf("[%s]", strings.Join(s, ","))\<close>.
\<close>

definition facets_String_group :: "propList \<Rightarrow> nat \<Rightarrow> string prog" where
  "facets_String_group e _ = bindP (propList_String e) (\<lambda>str. retP (Sprintf ''[%s]'' [str]))"

definition facets_String :: "FacetsBuilder \<Rightarrow> string prog" where
  "facets_String f =
     bindP (loadFacets f) (\<lambda>obj.
     bindP (lo_Map (props obj) facets_String_group) (\<lambda>s.
     retP (Sprintf ''[%s]'' [Join s '',''])))"

subsection \<open>Reading the store\<close>

text \<open>
  What a caller can observe of an object: the key and the clause list of a comparison,
  the groups of a builder, and whether an address holds an object. A builder is
  well formed when it is allocated and every member of every group is an allocated
  comparison; builders made by \<open>New\<close> and \<open>And\<close> from comparisons returned by the
  constructors are.
\<close>

definition keyOf :: "store \<Rightarrow> FacetProp \<Rightarrow> string" where
  "keyOf s p = key (propObjs s ! p)"

definition clausesOf :: "store \<Rightarrow> FacetProp \<Rightarrow> string list" where
  "clausesOf s p = state (propObjs s ! p)"

definition groupsOf :: "store \<Rightarrow> FacetsBuilder \<Rightarrow> propList list" where
  "groupsOf s b = props (facetsObjs s ! b)"

definition isProp :: "store \<Rightarrow> FacetProp \<Rightarrow> bool" where
  "isProp s p \<longleftrightarrow> p < length (propObjs s)"

definition isFacets :: "store \<Rightarrow> FacetsBuilder \<Rightarrow> bool" where
  "isFacets s b \<longleftrightarrow> b < length (facetsObjs s)"

definition isBuilder :: "store \<Rightarrow> FacetsBuilder \<Rightarrow> bool" where
  "isBuilder s b \<longleftrightarrow> isFacets s b \<and> list_all (list_all (isProp s)) (groupsOf s b)"

text \<open>The clause lists a builder holds: per group, per member comparison.\<close>

definition builderView :: "store \<Rightarrow> FacetsBuilder \<Rightarrow> string list list list" where
  "builderView s b = map (map (clausesOf s)) (groupsOf s b)"

text \<open>
  The store in which the clauses \<open>cs\<close> have been added at the end of the clause list
  of the comparison \<open>f\<close>, with every other field and object as before.
\<close>

definition withClauses :: "store \<Rightarrow> FacetProp \<Rightarrow> string list \<Rightarrow> store" where
  "withClauses s f cs =
     s\<lparr>propObjs := (propObjs s)[f := (propObjs s ! f)\<lparr>state := state (propObjs s ! f) @ cs\<rparr>]\<rparr>"

text \<open>
  The store in which the builder \<open>b\<close> has the group \<open>ps\<close> added after its groups,
  with every other field and object as before.
\<close>

definition withGroup :: "store \<Rightarrow> FacetsBuilder \<Rightarrow> propList \<Rightarrow> store" where
  "withGroup s b ps =
     s\<lparr>facetsObjs := (facetsObjs s)[b := (facetsObjs s ! b)\<lparr>props := props (facetsObjs s ! b) @ [ps]\<rparr>]\<rparr>"

text \<open>The string a program returns, when it returns.\<close>

definition resultOf :: "panic + ('a \<times> store) \<Rightarrow> 'a option" where
  "resultOf r = (case r of Inl _ \<Rightarrow> None | Inr (x, _) \<Rightarrow> Some x)"

section \<open>The specification\<close>

subsection \<open>Operators and clauses\<close>

text \<open>
  The six operators of the specification with their symbols, and the rendered clause
  \<open>"<key><symbol><value>"\<close>.
\<close>

datatype operator = EqualOp | NotEqualOp | LessOp | LessOrEqualOp | GreaterOp | GreaterOrEqualOp

fun spec_symbol :: "operator \<Rightarrow> string" where
  "spec_symbol EqualOp = ''=''"
| "spec_symbol NotEqualOp = ''!=''"
| "spec_symbol LessOp = ''<''"
| "spec_symbol LessOrEqualOp = ''<=''"
| "spec_symbol GreaterOp = ''>''"
| "spec_symbol GreaterOrEqualOp = ''>=''"

definition spec_clause :: "string \<Rightarrow> operator \<Rightarrow> string \<Rightarrow> string" where
  \<open>spec_clause k opr v = ''"'' @ k @ spec_symbol opr @ v @ ''"''\<close>

text \<open>The operator method of the source that belongs to each operator.\<close>

fun callOp :: "operator \<Rightarrow> FacetProp \<Rightarrow> string list \<Rightarrow> FacetProp prog" where
  "callOp EqualOp = Equal"
| "callOp NotEqualOp = NotEqual"
| "callOp LessOp = Less"
| "callOp LessOrEqualOp = LessOrEqual"
| "callOp GreaterOp = Greater"
| "callOp GreaterOrEqualOp = GreaterOrEqual"

subsection \<open>Serialization as the specification words it\<close>

text \<open>
  The items of a list with a comma between neighbours; a group is its members'
  comma-joined clause lists, comma-joined and wrapped in one bracket pair; the whole
  is the bracketed groups, comma-joined and wrapped in one outer bracket pair.
\<close>

fun spec_commas :: "string list \<Rightarrow> string" where
  "spec_commas [] = []"
| "spec_commas (x # xs) = x @ concat (map (\<lambda>y. '','' @ y) xs)"

definition spec_group :: "string list list \<Rightarrow> string" where
  "spec_group g = ''['' @ spec_commas (map spec_commas g) @ '']''"

definition spec_Serialize :: "string list list list \<Rightarrow> string" where
  "spec_Serialize gs = ''['' @ spec_commas (map spec_group gs) @ '']''"

subsection \<open>The output grammar\<close>

text \<open>
  The grammar of the specification,
  \<^verbatim>\<open>outer := "[" group ("," group)* "]" | "[]"\<close>,
  \<^verbatim>\<open>group := "[" clause ("," clause)* "]" | "[]"\<close>,
  \<^verbatim>\<open>clause := "\"" key operator value "\""\<close>,
  \<^verbatim>\<open>operator := "=" | "!=" | "<" | "<=" | ">" | ">="\<close>.
  It does not say what a key or a value is; any string is taken as one.
\<close>

inductive grammar_operator :: "string \<Rightarrow> bool" where
  "grammar_operator (spec_symbol opr)"

inductive grammar_clause :: "string \<Rightarrow> bool" where
  \<open>grammar_operator opr \<Longrightarrow> grammar_clause (''"'' @ k @ opr @ v @ ''"'')\<close>

inductive grammar_clauses :: "string \<Rightarrow> bool" where
  "grammar_clause c \<Longrightarrow> grammar_clauses c"
| "grammar_clause c \<Longrightarrow> grammar_clauses r \<Longrightarrow> grammar_clauses (c @ '','' @ r)"

inductive grammar_group :: "string \<Rightarrow> bool" where
  "grammar_group ''[]''"
| "grammar_clauses cs \<Longrightarrow> grammar_group (''['' @ cs @ '']'')"

inductive grammar_groups :: "string \<Rightarrow> bool" where
  "grammar_group g \<Longrightarrow> grammar_groups g"
| "grammar_group g \<Longrightarrow> grammar_groups r \<Longrightarrow> grammar_groups (g @ '','' @ r)"

inductive grammar_outer :: "string \<Rightarrow> bool" where
  "grammar_outer ''[]''"
| "grammar_groups gs \<Longrightarrow> grammar_outer (''['' @ gs @ '']'')"

section \<open>Client programs\<close>

text \<open>
  A fluent chain of operator calls on one comparison,
  \<open>p.Op1(vs1...).Op2(vs2...)...\<close>: each call is made on the value the previous one
  returned.
\<close>

type_synonym opCall = "operator \<times> string list"

fun runCalls :: "FacetProp \<Rightarrow> opCall list \<Rightarrow> FacetProp prog" where
  "runCalls f [] = retP f"
| "runCalls f (c # cs) = bindP (callOp (fst c) f (snd c)) (\<lambda>f'. runCalls f' cs)"

text \<open>The clauses such a chain is specified to render for the key \<open>k\<close>, in call order.\<close>

definition callsClauses :: "string \<Rightarrow> opCall list \<Rightarrow> string list" where
  "callsClauses k cs = concat (map (\<lambda>c. map (spec_clause k (fst c)) (snd c)) cs)"

text \<open>
  A build script is the sequence of calls a client makes to build one builder: for
  each group in order, for each member in order, a constructor call for the key and a
  chain of operator calls, then \<open>And\<close> with the members; \<open>String\<close> at the end.
\<close>

type_synonym propScript = "string \<times> opCall list"

definition buildProp :: "propScript \<Rightarrow> FacetProp prog" where
  "buildProp ps = bindP (newFacetProp (fst ps)) (\<lambda>p. runCalls p (snd ps))"

fun buildGroup :: "propScript list \<Rightarrow> propList prog" where
  "buildGroup [] = retP []"
| "buildGroup (m # ms) =
     bindP (buildProp m) (\<lambda>p.
     bindP (buildGroup ms) (\<lambda>ps.
     retP (p # ps)))"

fun addGroups :: "FacetsBuilder \<Rightarrow> propScript list list \<Rightarrow> FacetsBuilder prog" where
  "addGroups b [] = retP b"
| "addGroups b (g # gs) =
     bindP (buildGroup g) (\<lambda>ps.
     bindP (And b ps) (\<lambda>b'.
     addGroups b' gs))"

definition buildAndSerialize :: "propScript list list \<Rightarrow> string prog" where
  "buildAndSerialize gs =
     bindP (New []) (\<lambda>b.
     bindP (addGroups b gs) (\<lambda>b'.
     facets_String b'))"

text \<open>The clause lists a script is specified to leave in the builder, in script order.\<close>

definition scriptView :: "propScript list list \<Rightarrow> string list list list" where
  "scriptView gs = map (map (\<lambda>ps. callsClauses (fst ps) (snd ps))) gs"

text \<open>The comparison a script of one member builds.\<close>

definition builtProp :: "propScript \<Rightarrow> facetProp" where
  "builtProp ps = \<lparr>key = fst ps, state = callsClauses (fst ps) (snd ps)\<rparr>"

text \<open>
  Two one-member groups for the scripts \<open>[groupK1, groupK2]\<close> and
  \<open>[groupK2, groupK1]\<close>: \<open>newFacetProp("k1")().Equal("a")\<close> and
  \<open>newFacetProp("k2")().Equal("b")\<close>.
\<close>

definition groupK1 :: "propScript list" where
  "groupK1 = [(''k1'', [(EqualOp, [''a''])])]"

definition groupK2 :: "propScript list" where
  "groupK2 = [(''k2'', [(EqualOp, [''b''])])]"

text \<open>
  \<open>k1 := newFacetProp("k1")().Equal("a", "b")\<close>,
  \<open>k2 := newFacetProp("k2")().Equal("c", "d")\<close>,
  \<open>New(k1).And(k2).String()\<close>.
\<close>

definition twoGroupsExample :: "string prog" where
  "twoGroupsExample =
     bindP (newFacetProp ''k1'') (\<lambda>p1.
     bindP (Equal p1 [''a'', ''b'']) (\<lambda>k1.
     bindP (newFacetProp ''k2'') (\<lambda>p2.
     bindP (Equal p2 [''c'', ''d'']) (\<lambda>k2.
     bindP (New [k1]) (\<lambda>b.
     bindP (And b [k2]) (\<lambda>b'.
     facets_String b'))))))"

text \<open>\<open>New().And().String()\<close>: one call of \<open>And\<close> with no comparison.\<close>

definition emptyGroupExample :: "string prog" where
  "emptyGroupExample =
     bindP (New []) (\<lambda>b.
     bindP (And b []) (\<lambda>b'.
     facets_String b'))"

text \<open>
  \<open>fresh := Versions()\<close>, \<open>kv := newFacetProp("key")().Equal("value")\<close>,
  \<open>New(fresh, kv).String()\<close>: a group whose first member has no clause.
\<close>

definition freshMemberExample :: "string prog" where
  "freshMemberExample =
     bindP Versions (\<lambda>fresh.
     bindP (newFacetProp ''key'') (\<lambda>p.
     bindP (Equal p [''value'']) (\<lambda>kv.
     bindP (New [fresh, kv]) (\<lambda>b.
     facets_String b))))"

subsection \<open>Some stores\<close>

text \<open>
  The store the two-group example leaves behind when it starts in the empty store; a
  store holding one comparison fresh from \<open>Categories()\<close>; and the store after
  \<open>New()\<close> in the empty store.
\<close>

definition twoGroupsStore :: store where
  \<open>twoGroupsStore =
     \<lparr>propObjs = [\<lparr>key = ''k1'', state = [''"k1=a"'', ''"k1=b"'']\<rparr>,
                  \<lparr>key = ''k2'', state = [''"k2=c"'', ''"k2=d"'']\<rparr>],
      facetsObjs = [\<lparr>facets_state = [], props = [[0], [1]]\<rparr>]\<rparr>\<close>

definition categoriesStore :: store where
  "categoriesStore = \<lparr>propObjs = [\<lparr>key = ''categories'', state = []\<rparr>], facetsObjs = []\<rparr>"

definition newBuilderStore :: store where
  "newBuilderStore = \<lparr>propObjs = [], facetsObjs = [\<lparr>facets_state = [], props = []\<rparr>]\<rparr>"

text \<open>
  The store the fresh-member example leaves behind when it starts in the empty store:
  a comparison with no clause, a comparison with one, and a builder whose one group
  holds both.
\<close>

definition freshMemberStore :: store where
  \<open>freshMemberStore =
     \<lparr>propObjs = [\<lparr>key = ''versions'', state = []\<rparr>,
                  \<lparr>key = ''key'', state = [''"key=value"'']\<rparr>],
      facetsObjs = [\<lparr>facets_state = [], props = [[0, 1]]\<rparr>]\<rparr>\<close>

text \<open>The store after \<open>Categories()\<close> has been called twice in the empty store.\<close>

definition twoCategoriesStore :: store where
  "twoCategoriesStore =
     \<lparr>propObjs = [\<lparr>key = ''categories'', state = []\<rparr>, \<lparr>key = ''categories'', state = []\<rparr>],
      facetsObjs = []\<rparr>"

text \<open>
  A store in which a builder holds the clause lists of \<open>twoGroupsStore\<close> in the same
  order, with the builder and the comparisons at other addresses.
\<close>

definition twoGroupsOtherStore :: store where
  \<open>twoGroupsOtherStore =
     \<lparr>propObjs = [\<lparr>key = ''k2'', state = [''"k2=c"'', ''"k2=d"'']\<rparr>,
                  \<lparr>key = ''k1'', state = [''"k1=a"'', ''"k1=b"'']\<rparr>],
      facetsObjs = [\<lparr>facets_state = [], props = []\<rparr>,
                    \<lparr>facets_state = [], props = [[1], [0]]\<rparr>]\<rparr>\<close>

section \<open>Verification\<close>

subsection \<open>The library functions\<close>

lemma Sprintf_brackets: "Sprintf ''[%s]'' [x] = ''['' @ x @ '']''"
  by simp

lemma Sprintf_clause:
  \<open>Sprintf ''"%s=%s"'' [k, v] = spec_clause k EqualOp v\<close>
  \<open>Sprintf ''"%s!=%s"'' [k, v] = spec_clause k NotEqualOp v\<close>
  \<open>Sprintf ''"%s<%s"'' [k, v] = spec_clause k LessOp v\<close>
  \<open>Sprintf ''"%s<=%s"'' [k, v] = spec_clause k LessOrEqualOp v\<close>
  \<open>Sprintf ''"%s>%s"'' [k, v] = spec_clause k GreaterOp v\<close>
  \<open>Sprintf ''"%s>=%s"'' [k, v] = spec_clause k GreaterOrEqualOp v\<close>
  by (simp_all add: spec_clause_def)

lemma Join_commas: "Join xs '','' = spec_commas xs"
proof (induction xs "'',''" rule: Join.induct)
  case (3 e v va)
  then show ?case by (cases v) simp_all
qed simp_all

subsection \<open>Serialization of well-formed builders\<close>

lemma facetProp_String_ok:
  "isProp s f \<Longrightarrow> facetProp_String f s = Inr (spec_commas (clausesOf s f), s)"
  by (simp add: facetProp_String_def bindP_def loadProp_def retP_def isProp_def clausesOf_def Join_commas)

lemma lo_Map_from_pure:
  "(\<And>x j. x \<in> set xs \<Longrightarrow> it x j s = Inr (g x, s)) \<Longrightarrow> lo_Map_from i xs it s = Inr (map g xs, s)"
  by (induction xs arbitrary: i) (simp_all add: bindP_def retP_def)

lemma propList_String_ok:
  assumes "list_all (isProp s) ps"
  shows "propList_String ps s = Inr (spec_commas (map (\<lambda>p. spec_commas (clausesOf s p)) ps), s)"
proof -
  have "lo_Map ps (\<lambda>p _. facetProp_String p) s = Inr (map (\<lambda>p. spec_commas (clausesOf s p)) ps, s)"
    unfolding lo_Map_def using assms
    by (intro lo_Map_from_pure) (simp add: facetProp_String_ok list_all_iff)
  then show ?thesis
    by (simp add: propList_String_def bindP_def retP_def Join_commas)
qed

lemma facets_String_group_ok:
  assumes "list_all (isProp s) ps"
  shows "facets_String_group ps i s = Inr (spec_group (map (clausesOf s) ps), s)"
  using propList_String_ok [OF assms]
  by (simp add: facets_String_group_def bindP_def retP_def spec_group_def comp_def)

lemma facets_String_ok:
  assumes "isBuilder s b"
  shows "facets_String b s = Inr (spec_Serialize (builderView s b), s)"
proof -
  from assms have alloc: "b < length (facetsObjs s)"
    and members: "list_all (list_all (isProp s)) (props (facetsObjs s ! b))"
    by (simp_all add: isBuilder_def isFacets_def groupsOf_def)
  have "lo_Map (props (facetsObjs s ! b)) facets_String_group s =
          Inr (map (\<lambda>g. spec_group (map (clausesOf s) g)) (props (facetsObjs s ! b)), s)"
    unfolding lo_Map_def using members
    by (intro lo_Map_from_pure) (simp add: facets_String_group_ok list_all_iff)
  with alloc show ?thesis
    by (simp add: facets_String_def bindP_def retP_def loadFacets_def spec_Serialize_def
        builderView_def groupsOf_def Join_commas comp_def)
qed

subsection \<open>Operator methods and constructors\<close>

lemma rangeAppend_ok:
  "isProp s f \<Longrightarrow>
   rangeAppend fmt f vs s = Inr ((), withClauses s f (map (\<lambda>v. Sprintf fmt [keyOf s f, v]) vs))"
proof (induction vs arbitrary: s)
  case Nil
  then show ?case by (simp add: retP_def withClauses_def)
next
  case (Cons v vs)
  then show ?case
    by (simp add: bindP_def appendClause_def loadProp_def storeProp_def isProp_def withClauses_def keyOf_def)
qed

lemma callOp_ok:
  assumes "isProp s f"
  shows "callOp opr f vs s = Inr (f, withClauses s f (map (spec_clause (keyOf s f) opr) vs))"
  by (cases opr)
    (simp_all add: Equal_def NotEqual_def Less_def LessOrEqual_def Greater_def GreaterOrEqual_def
      bindP_def retP_def rangeAppend_ok [OF assms] Sprintf_clause del: Sprintf.simps)

lemma newFacetProp_run:
  "newFacetProp k s = Inr (length (propObjs s), s\<lparr>propObjs := propObjs s @ [\<lparr>key = k, state = []\<rparr>]\<rparr>)"
  by (simp add: newFacetProp_def newProp_def)

subsection \<open>The example programs, run in any store\<close>

lemma twoGroupsExample_run:
  \<open>resultOf (twoGroupsExample s) = Some ''[["k1=a","k1=b"],["k2=c","k2=d"]]''\<close>
  by (simp add: twoGroupsExample_def resultOf_def bindP_def retP_def newFacetProp_def newProp_def
      Equal_def appendClause_def loadProp_def storeProp_def New_def And_def newFacets_def
      loadFacets_def storeFacets_def facets_String_def lo_Map_def facets_String_group_def
      propList_String_def facetProp_String_def nth_append)

lemma emptyGroupExample_run:
  \<open>resultOf (emptyGroupExample s) = Some ''[[]]''\<close>
  by (simp add: emptyGroupExample_def resultOf_def bindP_def retP_def newFacetProp_def newProp_def
      Equal_def appendClause_def loadProp_def storeProp_def New_def And_def newFacets_def
      loadFacets_def storeFacets_def facets_String_def lo_Map_def facets_String_group_def
      propList_String_def facetProp_String_def nth_append)

lemma freshMemberExample_run:
  \<open>resultOf (freshMemberExample s) = Some ''[[,"key=value"]]''\<close>
  by (simp add: freshMemberExample_def resultOf_def bindP_def retP_def newFacetProp_def newProp_def Versions_def
      Equal_def appendClause_def loadProp_def storeProp_def New_def And_def newFacets_def
      loadFacets_def storeFacets_def facets_String_def lo_Map_def facets_String_group_def
      propList_String_def facetProp_String_def nth_append)

subsection \<open>Stores after an update\<close>

lemma isProp_withClauses [simp]: "isProp (withClauses s f cs) p = isProp s p"
  by (simp add: isProp_def withClauses_def)

lemma keyOf_withClauses [simp]: "keyOf (withClauses s f cs) p = keyOf s p"
  by (cases "f < length (propObjs s)")
    (simp_all add: keyOf_def withClauses_def nth_list_update list_update_beyond)

lemma clausesOf_withClauses_same:
  "isProp s f \<Longrightarrow> clausesOf (withClauses s f cs) f = clausesOf s f @ cs"
  by (simp add: clausesOf_def withClauses_def isProp_def)

lemma clausesOf_withClauses_other:
  "p \<noteq> f \<Longrightarrow> clausesOf (withClauses s f cs) p = clausesOf s p"
  by (simp add: clausesOf_def withClauses_def)

lemma facetsObjs_withClauses [simp]: "facetsObjs (withClauses s f cs) = facetsObjs s"
  by (simp add: withClauses_def)

lemma withClauses_Nil: "withClauses s f [] = s"
  by (simp add: withClauses_def)

lemma withClauses_twice:
  "withClauses (withClauses s f cs) f ds = withClauses s f (cs @ ds)"
  by (cases "f < length (propObjs s)") (simp_all add: withClauses_def list_update_beyond)

lemma runCalls_ok:
  "isProp s f \<Longrightarrow> runCalls f cs s = Inr (f, withClauses s f (callsClauses (keyOf s f) cs))"
proof (induction cs arbitrary: s)
  case Nil
  then show ?case by (simp add: retP_def callsClauses_def withClauses_Nil)
next
  case (Cons c cs)
  let ?s1 = "withClauses s f (map (spec_clause (keyOf s f) (fst c)) (snd c))"
  have "runCalls f (c # cs) s = runCalls f cs ?s1"
    by (simp add: bindP_def callOp_ok [OF Cons.prems])
  also have "\<dots> = Inr (f, withClauses ?s1 f (callsClauses (keyOf ?s1 f) cs))"
    using Cons.prems by (intro Cons.IH) simp
  finally show ?case
    by (simp add: withClauses_twice callsClauses_def)
qed

lemma And_ok: "isFacets s b \<Longrightarrow> And b ps s = Inr (b, withGroup s b ps)"
  by (simp add: And_def bindP_def retP_def loadFacets_def storeFacets_def isFacets_def withGroup_def)

lemma isProp_withGroup [simp]: "isProp (withGroup s b ps) p = isProp s p"
  by (simp add: isProp_def withGroup_def)

lemma isFacets_withGroup [simp]: "isFacets (withGroup s b ps) c = isFacets s c"
  by (simp add: isFacets_def withGroup_def)

lemma clausesOf_withGroup [simp]: "clausesOf (withGroup s b ps) p = clausesOf s p"
  by (simp add: clausesOf_def withGroup_def)

lemma groupsOf_withGroup:
  "isFacets s b \<Longrightarrow> groupsOf (withGroup s b ps) b = groupsOf s b @ [ps]"
  by (simp add: groupsOf_def withGroup_def isFacets_def)

lemma isBuilder_withGroup:
  "isBuilder s b \<Longrightarrow> list_all (isProp s) ps \<Longrightarrow> isBuilder (withGroup s b ps) b"
  by (simp add: isBuilder_def groupsOf_withGroup list_all_iff)

lemma builderView_withGroup:
  "isFacets s b \<Longrightarrow> builderView (withGroup s b ps) b = builderView s b @ [map (clausesOf s) ps]"
  by (simp add: builderView_def groupsOf_withGroup cong: map_cong)

lemma spec_commas_snoc:
  "spec_commas (xs @ [x]) = (if xs = [] then x else spec_commas xs @ '','' @ x)"
  by (cases xs) simp_all

subsection \<open>Serialization never writes\<close>

lemma facetProp_String_frame: "facetProp_String f s = Inr (str, s') \<Longrightarrow> s' = s"
  by (auto simp: facetProp_String_def bindP_def loadProp_def retP_def split: if_splits)

lemma lo_Map_from_frame:
  assumes "\<And>x j r s'. x \<in> set xs \<Longrightarrow> it x j s = Inr (r, s') \<Longrightarrow> s' = s"
    and "lo_Map_from i xs it s = Inr (rs, s')"
  shows "s' = s"
  using assms
proof (induction xs arbitrary: i rs)
  case Nil
  then show ?case by (simp add: retP_def)
next
  case (Cons x xs)
  from Cons.prems(2) obtain r s1 where first: "it x i s = Inr (r, s1)"
    by (auto simp: bindP_def split: sum.splits)
  have s1: "s1 = s"
    using Cons.prems(1) [of x i r s1] first by simp
  from Cons.prems(2) first s1 obtain rs' where rest: "lo_Map_from (Suc i) xs it s = Inr (rs', s')"
    by (auto simp: bindP_def retP_def split: sum.splits)
  have "\<And>y j r t. y \<in> set xs \<Longrightarrow> it y j s = Inr (r, t) \<Longrightarrow> t = s"
    using Cons.prems(1) by (meson list.set_intros(2))
  then show ?case
    using rest by (rule Cons.IH)
qed

lemma propList_String_frame: "propList_String ps s = Inr (str, s') \<Longrightarrow> s' = s"
proof -
  assume run: "propList_String ps s = Inr (str, s')"
  then obtain rs where "lo_Map_from 0 ps (\<lambda>p _. facetProp_String p) s = Inr (rs, s')"
    by (auto simp: propList_String_def lo_Map_def bindP_def retP_def split: sum.splits)
  then show ?thesis
    by (rule lo_Map_from_frame [rotated]) (rule facetProp_String_frame)
qed

lemma facets_String_group_frame: "facets_String_group e i s = Inr (str, s') \<Longrightarrow> s' = s"
  by (auto simp: facets_String_group_def bindP_def retP_def split: sum.splits
      dest: propList_String_frame)

lemma facets_String_frame: "facets_String b s = Inr (str, s') \<Longrightarrow> s' = s"
proof -
  assume run: "facets_String b s = Inr (str, s')"
  then obtain rs where
    "lo_Map_from 0 (props (facetsObjs s ! b)) facets_String_group s = Inr (rs, s')"
    by (auto simp: facets_String_def lo_Map_def bindP_def retP_def loadFacets_def
        split: sum.splits if_splits)
  then show ?thesis
    by (rule lo_Map_from_frame [rotated]) (rule facets_String_group_frame)
qed

lemma facets_String_twice:
  "bindP (facets_String b) (\<lambda>x. bindP (facets_String b) (\<lambda>y. retP (x, y))) s =
     (case facets_String b s of Inl e \<Rightarrow> Inl e | Inr (x, _) \<Rightarrow> Inr ((x, x), s))"
proof (cases "facets_String b s")
  case (Inl e)
  then show ?thesis by (simp add: bindP_def)
next
  case (Inr r)
  obtain x s' where r: "r = (x, s')" by (cases r)
  with Inr have "s' = s" by (simp add: facets_String_frame)
  with Inr r show ?thesis by (simp add: bindP_def retP_def)
qed

subsection \<open>Strings of the grammar\<close>

lemma grammar_clause_starts: \<open>grammar_clause c \<Longrightarrow> \<exists>t. c = ''"'' @ t\<close>
  by (erule grammar_clause.cases) simp

lemma grammar_clauses_starts: \<open>grammar_clauses cs \<Longrightarrow> \<exists>t. cs = ''"'' @ t\<close>
  by (erule grammar_clauses.cases) (auto dest: grammar_clause_starts)

lemma grammar_group_starts: \<open>grammar_group g \<Longrightarrow> g = ''[]'' \<or> (\<exists>t. g = ''["'' @ t)\<close>
  by (erule grammar_group.cases) (auto dest: grammar_clauses_starts)

lemma grammar_groups_starts:
  \<open>grammar_groups gs \<Longrightarrow> (\<exists>t. gs = ''[]'' @ t) \<or> (\<exists>t. gs = ''["'' @ t)\<close>
  by (erule grammar_groups.cases) (auto dest: grammar_group_starts)

lemma grammar_outer_starts:
  \<open>grammar_outer x \<Longrightarrow> x = ''[]'' \<or> (\<exists>t. x = ''[[]'' @ t) \<or> (\<exists>t. x = ''[["'' @ t)\<close>
  by (erule grammar_outer.cases) (auto dest: grammar_groups_starts)

lemma bare_comma_not_group: \<open>\<not> grammar_group ''[,"key=value"]''\<close>
  by (auto dest: grammar_group_starts)

lemma bare_comma_not_outer: \<open>\<not> grammar_outer ''[[,"key=value"]]''\<close>
  by (auto dest: grammar_outer_starts)

lemma one_clause_group: \<open>grammar_group ''["key=value"]''\<close>
proof -
  have "grammar_operator ''=''"
    using grammar_operator.intros [of EqualOp] by simp
  then have \<open>grammar_clause (''"'' @ ''key'' @ ''='' @ ''value'' @ ''"'')\<close>
    by (rule grammar_clause.intros)
  then have \<open>grammar_clauses (''"'' @ ''key'' @ ''='' @ ''value'' @ ''"'')\<close>
    by (rule grammar_clauses.intros)
  then have \<open>grammar_group (''['' @ (''"'' @ ''key'' @ ''='' @ ''value'' @ ''"'') @ '']'')\<close>
    by (rule grammar_group.intros)
  then show ?thesis by simp
qed

lemma newFacetProp_fresh:
  assumes "newFacetProp k s = Inr (p, s')"
  shows "\<not> isProp s p \<and> isProp s' p \<and> keyOf s' p = k \<and> clausesOf s' p = [] \<and>
         (\<forall>q. isProp s q \<longrightarrow>
            q \<noteq> p \<and> isProp s' q \<and> keyOf s' q = keyOf s q \<and> clausesOf s' q = clausesOf s q)"
  using assms
  by (auto simp: newFacetProp_def newProp_def isProp_def keyOf_def clausesOf_def nth_append)

lemma New_run:
  "New ps s =
     Inr (length (facetsObjs s),
          s\<lparr>facetsObjs := facetsObjs s @
               [\<lparr>facets_state = [], props = (if ps = [] then [] else [ps])\<rparr>]\<rparr>)"
  by (simp add: New_def And_def bindP_def retP_def newFacets_def loadFacets_def storeFacets_def)

subsection \<open>Build scripts\<close>

lemma buildProp_ok:
  "buildProp ps s = Inr (length (propObjs s), s\<lparr>propObjs := propObjs s @ [builtProp ps]\<rparr>)"
proof -
  let ?s1 = "s\<lparr>propObjs := propObjs s @ [\<lparr>key = fst ps, state = []\<rparr>]\<rparr>"
  let ?f = "length (propObjs s)"
  have "isProp ?s1 ?f" by (simp add: isProp_def)
  then have "runCalls ?f (snd ps) ?s1 =
      Inr (?f, withClauses ?s1 ?f (callsClauses (keyOf ?s1 ?f) (snd ps)))"
    by (rule runCalls_ok)
  then show ?thesis
    by (simp add: buildProp_def bindP_def newFacetProp_run withClauses_def keyOf_def builtProp_def)
qed

lemma buildGroup_ok:
  "buildGroup g s =
     Inr ([length (propObjs s) ..< length (propObjs s) + length g],
          s\<lparr>propObjs := propObjs s @ map builtProp g\<rparr>)"
proof (induction g arbitrary: s)
  case Nil
  then show ?case by (simp add: retP_def)
next
  case (Cons m ms)
  let ?n = "length (propObjs s)"
  let ?s1 = "s\<lparr>propObjs := propObjs s @ [builtProp m]\<rparr>"
  have rest: "buildGroup ms ?s1 =
      Inr ([Suc ?n ..< Suc ?n + length ms], s\<lparr>propObjs := propObjs s @ map builtProp (m # ms)\<rparr>)"
    using Cons.IH [of ?s1] by simp
  have addrs: "[?n ..< ?n + length (m # ms)] = ?n # [Suc ?n ..< Suc ?n + length ms]"
    by (simp add: upt_conv_Cons del: upt_Suc)
  have "buildGroup (m # ms) s =
      Inr (?n # [Suc ?n ..< Suc ?n + length ms], s\<lparr>propObjs := propObjs s @ map builtProp (m # ms)\<rparr>)"
    using rest by (simp add: bindP_def retP_def buildProp_ok)
  with addrs show ?case by simp
qed

lemma clausesOf_new_members:
  "map (clausesOf (s\<lparr>propObjs := propObjs s @ map builtProp g\<rparr>))
       [length (propObjs s) ..< length (propObjs s) + length g] =
   map (\<lambda>ps. callsClauses (fst ps) (snd ps)) g"
  by (rule nth_equalityI) (simp_all add: clausesOf_def builtProp_def nth_append)

lemma isBuilder_more_props:
  assumes "isBuilder s b"
  shows "isBuilder (s\<lparr>propObjs := propObjs s @ os\<rparr>) b"
  using assms
  by (auto simp: isBuilder_def isFacets_def groupsOf_def isProp_def list_all_iff
      intro: trans_less_add1)

lemma builderView_more_props:
  assumes "isBuilder s b"
  shows "builderView (s\<lparr>propObjs := propObjs s @ os\<rparr>) b = builderView s b"
  using assms
  by (auto simp: builderView_def isBuilder_def groupsOf_def isProp_def clausesOf_def
      list_all_iff nth_append)

lemma addGroups_ok:
  "isBuilder s b \<Longrightarrow>
   \<exists>s'. addGroups b gs s = Inr (b, s') \<and> isBuilder s' b \<and>
        builderView s' b = builderView s b @ scriptView gs"
proof (induction gs arbitrary: s)
  case Nil
  then show ?case by (simp add: retP_def scriptView_def)
next
  case (Cons g gs)
  let ?n = "length (propObjs s)"
  let ?ps = "[?n ..< ?n + length g]"
  let ?s1 = "s\<lparr>propObjs := propObjs s @ map builtProp g\<rparr>"
  let ?s2 = "withGroup ?s1 b ?ps"
  have wf1: "isBuilder ?s1 b"
    using Cons.prems by (rule isBuilder_more_props)
  then have alloc1: "isFacets ?s1 b"
    by (simp add: isBuilder_def)
  have members: "list_all (isProp ?s1) ?ps"
    by (simp add: list_all_iff isProp_def)
  have wf2: "isBuilder ?s2 b"
    using wf1 members by (rule isBuilder_withGroup)
  have view2: "builderView ?s2 b = builderView s b @ [map (\<lambda>ps. callsClauses (fst ps) (snd ps)) g]"
    using builderView_withGroup [OF alloc1, of ?ps] builderView_more_props [OF Cons.prems]
      clausesOf_new_members [of s g]
    by simp
  have step: "addGroups b (g # gs) s = addGroups b gs ?s2"
    by (simp add: bindP_def buildGroup_ok And_ok [OF alloc1])
  from Cons.IH [OF wf2] obtain s' where
    "addGroups b gs ?s2 = Inr (b, s')" "isBuilder s' b"
    "builderView s' b = builderView ?s2 b @ scriptView gs"
    by blast
  with step view2 show ?case
    by (simp add: scriptView_def)
qed

lemma buildAndSerialize_ok:
  "resultOf (buildAndSerialize gs s) = Some (spec_Serialize (scriptView gs))"
proof -
  let ?b = "length (facetsObjs s)"
  let ?s0 = "s\<lparr>facetsObjs := facetsObjs s @ [\<lparr>facets_state = [], props = []\<rparr>]\<rparr>"
  have new: "New [] s = Inr (?b, ?s0)"
    by (simp add: New_run)
  have wf0: "isBuilder ?s0 ?b" and view0: "builderView ?s0 ?b = []"
    by (simp_all add: isBuilder_def isFacets_def groupsOf_def builderView_def)
  from addGroups_ok [OF wf0, of gs] view0 obtain s' where
    run: "addGroups ?b gs ?s0 = Inr (?b, s')" and wf: "isBuilder s' ?b"
    and view: "builderView s' ?b = scriptView gs"
    by auto
  from new run facets_String_ok [OF wf] view show ?thesis
    by (simp add: buildAndSerialize_def bindP_def resultOf_def)
qed

section \<open>The claims\<close>

text \<open>
  Claim C1. For every well-formed builder, \<open>String\<close> returns the string the
  specification describes: each member's clause list joined with commas, the members
  of a group joined with commas and wrapped in one bracket pair, the groups joined with
  commas and wrapped in one outer bracket pair; and it leaves the store as it was. In
  particular the program that builds two groups, each of one comparison with two
  operands of \<open>Equal\<close>, prints \<^verbatim>\<open>[["k1=a","k1=b"],["k2=c","k2=d"]]\<close>, whatever the
  store it starts in.
\<close>

theorem serialize_matches_specification:
  \<open>(isBuilder s b \<longrightarrow> facets_String b s = Inr (spec_Serialize (builderView s b), s)) \<and>
   resultOf (twoGroupsExample s) = Some ''[["k1=a","k1=b"],["k2=c","k2=d"]]''\<close>
  by (simp add: facets_String_ok twoGroupsExample_run)

theorem serialize_matches_specification_witness:
  \<open>isBuilder twoGroupsStore 0 \<and>
   facets_String 0 twoGroupsStore = Inr (''[["k1=a","k1=b"],["k2=c","k2=d"]]'', twoGroupsStore)\<close>
proof -
  have wf: "isBuilder twoGroupsStore 0"
    by (simp add: isBuilder_def isFacets_def isProp_def groupsOf_def twoGroupsStore_def)
  have view: \<open>spec_Serialize (builderView twoGroupsStore 0) = ''[["k1=a","k1=b"],["k2=c","k2=d"]]''\<close>
    by (simp add: spec_Serialize_def spec_group_def builderView_def groupsOf_def clausesOf_def
        twoGroupsStore_def)
  from serialize_matches_specification [of twoGroupsStore 0] wf view show ?thesis
    by simp
qed

text \<open>
  Claim C2. On an allocated comparison, for every operand \<open>v\<close>, a call of any of the
  six operator methods with the single operand \<open>v\<close> returns its receiver and adds
  exactly one clause at the end of the receiver's clause list: the key, the symbol of
  the method (\<open>=\<close>, \<open>!=\<close>, \<open><\<close>, \<open><=\<close>, \<open>>\<close>, \<open>>=\<close>) and \<open>v\<close>, between
  two double quotes. Nothing else in the store changes.
\<close>

theorem single_operand_appends_one_clause:
  assumes "isProp s f"
  shows \<open>Equal f [v] s = Inr (f, withClauses s f [''"'' @ keyOf s f @ ''='' @ v @ ''"'']) \<and>
         NotEqual f [v] s = Inr (f, withClauses s f [''"'' @ keyOf s f @ ''!='' @ v @ ''"'']) \<and>
         Less f [v] s = Inr (f, withClauses s f [''"'' @ keyOf s f @ ''<'' @ v @ ''"'']) \<and>
         LessOrEqual f [v] s = Inr (f, withClauses s f [''"'' @ keyOf s f @ ''<='' @ v @ ''"'']) \<and>
         Greater f [v] s = Inr (f, withClauses s f [''"'' @ keyOf s f @ ''>'' @ v @ ''"'']) \<and>
         GreaterOrEqual f [v] s = Inr (f, withClauses s f [''"'' @ keyOf s f @ ''>='' @ v @ ''"''])\<close>
  using callOp_ok [OF assms, of EqualOp "[v]"] callOp_ok [OF assms, of NotEqualOp "[v]"]
    callOp_ok [OF assms, of LessOp "[v]"] callOp_ok [OF assms, of LessOrEqualOp "[v]"]
    callOp_ok [OF assms, of GreaterOp "[v]"] callOp_ok [OF assms, of GreaterOrEqualOp "[v]"]
  by (simp add: spec_clause_def)

theorem single_operand_appends_one_clause_witness:
  \<open>isProp categoriesStore 0 \<and>
   Equal 0 [''fabric''] categoriesStore =
     Inr (0, \<lparr>propObjs = [\<lparr>key = ''categories'', state = [''"categories=fabric"'']\<rparr>], facetsObjs = []\<rparr>) \<and>
   GreaterOrEqual 0 [''fabric''] categoriesStore =
     Inr (0, \<lparr>propObjs = [\<lparr>key = ''categories'', state = [''"categories>=fabric"'']\<rparr>], facetsObjs = []\<rparr>)\<close>
proof -
  have alloc: "isProp categoriesStore 0"
    by (simp add: isProp_def categoriesStore_def)
  from single_operand_appends_one_clause [OF alloc, of "''fabric''"] alloc show ?thesis
    by (simp add: withClauses_def keyOf_def categoriesStore_def)
qed

text \<open>
  Claim C3. On an allocated comparison, one operator call with the operands \<open>vs\<close>
  adds one clause per operand, in order and each with the operator of the call, at the
  end of the clause list, so the list grows by the number of operands. A chain of
  calls, with any operators, adds the clauses of each call in call order, each clause
  with the operator of the call that made it.
\<close>

theorem operator_calls_accumulate_in_order:
  assumes "isProp s f"
  shows "callOp opr f vs s = Inr (f, withClauses s f (map (spec_clause (keyOf s f) opr) vs)) \<and>
         clausesOf (withClauses s f (map (spec_clause (keyOf s f) opr) vs)) f =
           clausesOf s f @ map (spec_clause (keyOf s f) opr) vs \<and>
         length (clausesOf (withClauses s f (map (spec_clause (keyOf s f) opr) vs)) f) =
           length (clausesOf s f) + length vs \<and>
         runCalls f cs s = Inr (f, withClauses s f (callsClauses (keyOf s f) cs)) \<and>
         clausesOf (withClauses s f (callsClauses (keyOf s f) cs)) f =
           clausesOf s f @ concat (map (\<lambda>c. map (spec_clause (keyOf s f) (fst c)) (snd c)) cs)"
  using assms
  by (simp add: callOp_ok runCalls_ok clausesOf_withClauses_same callsClauses_def)

theorem operator_calls_accumulate_in_order_witness:
  \<open>isProp categoriesStore 0 \<and>
   NotEqual 0 [''quilt'', ''forge''] categoriesStore =
     Inr (0, \<lparr>propObjs = [\<lparr>key = ''categories'',
                             state = [''"categories!=quilt"'', ''"categories!=forge"'']\<rparr>],
              facetsObjs = []\<rparr>) \<and>
   runCalls 0 [(EqualOp, [''fabric'']), (NotEqualOp, [''quilt'', ''forge'']), (LessOp, [])]
       categoriesStore =
     Inr (0, \<lparr>propObjs = [\<lparr>key = ''categories'',
                             state = [''"categories=fabric"'', ''"categories!=quilt"'',
                                      ''"categories!=forge"'']\<rparr>],
              facetsObjs = []\<rparr>)\<close>
proof -
  have alloc: "isProp categoriesStore 0"
    by (simp add: isProp_def categoriesStore_def)
  from operator_calls_accumulate_in_order [OF alloc, of NotEqualOp "[''quilt'', ''forge'']"
      "[(EqualOp, [''fabric'']), (NotEqualOp, [''quilt'', ''forge'']), (LessOp, [])]"] alloc
  show ?thesis
    by (simp add: withClauses_def keyOf_def categoriesStore_def callsClauses_def spec_clause_def)
qed

text \<open>
  Claim C4. A builder with no group prints the two characters \<open>[]\<close>, and \<open>New()\<close>
  with no comparison makes such a builder.
\<close>

theorem zero_groups_serialize_to_empty_brackets:
  "(isFacets s b \<and> groupsOf s b = [] \<longrightarrow> facets_String b s = Inr (''[]'', s)) \<and>
   resultOf (bindP (New []) facets_String s) = Some ''[]''"
proof -
  have "facets_String b s = Inr (''[]'', s)" if "isFacets s b" "groupsOf s b = []"
    using facets_String_ok [of s b] that
    by (simp add: isBuilder_def spec_Serialize_def builderView_def)
  moreover have "resultOf (bindP (New []) facets_String s) = Some ''[]''"
    by (simp add: resultOf_def bindP_def retP_def New_def newFacets_def facets_String_def
        loadFacets_def lo_Map_def)
  ultimately show ?thesis by simp
qed

theorem zero_groups_serialize_to_empty_brackets_witness:
  "isFacets newBuilderStore 0 \<and> groupsOf newBuilderStore 0 = [] \<and>
   New [] emptyStore = Inr (0, newBuilderStore) \<and>
   facets_String 0 newBuilderStore = Inr (''[]'', newBuilderStore)"
proof -
  have pre: "isFacets newBuilderStore 0 \<and> groupsOf newBuilderStore 0 = []"
    by (simp add: isFacets_def groupsOf_def newBuilderStore_def)
  have new: "New [] emptyStore = Inr (0, newBuilderStore)"
    by (simp add: New_def bindP_def retP_def newFacets_def emptyStore_def newBuilderStore_def)
  from zero_groups_serialize_to_empty_brackets [of newBuilderStore 0] pre new show ?thesis
    by simp
qed

text \<open>
  Claim C5. \<open>And\<close> with no comparison on a well-formed builder adds an empty group
  after the groups the builder has, and the builder then prints the earlier groups
  followed by the element \<open>[]\<close>; \<open>New().And()\<close> prints \<open>[[]]\<close>.
\<close>

theorem empty_group_is_kept:
  \<open>(isBuilder s b \<longrightarrow>
      And b [] s = Inr (b, withGroup s b []) \<and>
      groupsOf (withGroup s b []) b = groupsOf s b @ [[]] \<and>
      facets_String b (withGroup s b []) =
        Inr (''['' @ spec_commas (map spec_group (builderView s b) @ [''[]'']) @ '']'',
             withGroup s b [])) \<and>
   resultOf (emptyGroupExample s) = Some ''[[]]''\<close>
proof -
  have "facets_String b (withGroup s b []) =
        Inr (''['' @ spec_commas (map spec_group (builderView s b) @ [''[]'']) @ '']'',
             withGroup s b [])" if wf: "isBuilder s b"
  proof -
    from wf have alloc: "isFacets s b" by (simp add: isBuilder_def)
    from wf have "isBuilder (withGroup s b []) b" by (simp add: isBuilder_withGroup)
    then show ?thesis
      by (simp add: facets_String_ok builderView_withGroup [OF alloc] spec_Serialize_def
          spec_group_def)
  qed
  then show ?thesis
    by (simp add: And_ok groupsOf_withGroup isBuilder_def emptyGroupExample_run)
qed

theorem empty_group_is_kept_witness:
  \<open>isBuilder twoGroupsStore 0 \<and>
   And 0 [] twoGroupsStore = Inr (0, withGroup twoGroupsStore 0 []) \<and>
   groupsOf (withGroup twoGroupsStore 0 []) 0 = [[0], [1], []] \<and>
   facets_String 0 (withGroup twoGroupsStore 0 []) =
     Inr (''[["k1=a","k1=b"],["k2=c","k2=d"],[]]'', withGroup twoGroupsStore 0 [])\<close>
proof -
  have wf: "isBuilder twoGroupsStore 0"
    by (simp add: isBuilder_def isFacets_def isProp_def groupsOf_def twoGroupsStore_def)
  have groups: "groupsOf twoGroupsStore 0 = [[0], [1]]"
    by (simp add: groupsOf_def twoGroupsStore_def)
  have view: \<open>map spec_group (builderView twoGroupsStore 0) = [''["k1=a","k1=b"]'', ''["k2=c","k2=d"]'']\<close>
    by (simp add: spec_group_def builderView_def groupsOf_def clausesOf_def twoGroupsStore_def)
  from empty_group_is_kept [of twoGroupsStore 0] wf groups view show ?thesis
    by simp
qed

text \<open>
  Claim C6. Whenever \<open>String\<close> of a builder, or of a comparison, returns, the store it
  leaves is the store it started in: the groups of the builder and the clause list of
  every comparison are as before. Two calls in a row on the same builder return the
  same string twice, and a well-formed builder does return one.
\<close>

theorem serialization_has_no_effect:
  "(\<forall>str s'. facets_String b s = Inr (str, s') \<longrightarrow> s' = s) \<and>
   (\<forall>str s'. facetProp_String f s = Inr (str, s') \<longrightarrow> s' = s) \<and>
   bindP (facets_String b) (\<lambda>x. bindP (facets_String b) (\<lambda>y. retP (x, y))) s =
     (case facets_String b s of Inl e \<Rightarrow> Inl e | Inr (x, _) \<Rightarrow> Inr ((x, x), s)) \<and>
   (isBuilder s b \<longrightarrow> (\<exists>str. facets_String b s = Inr (str, s)))"
  using facets_String_frame [of b s] facetProp_String_frame [of f s] facets_String_twice [of b s]
    facets_String_ok [of s b]
  by simp

theorem serialization_has_no_effect_witness:
  \<open>isBuilder twoGroupsStore 0 \<and>
   facets_String 0 twoGroupsStore = Inr (''[["k1=a","k1=b"],["k2=c","k2=d"]]'', twoGroupsStore) \<and>
   bindP (facets_String 0) (\<lambda>x. bindP (facets_String 0) (\<lambda>y. retP (x, y))) twoGroupsStore =
     Inr ((''[["k1=a","k1=b"],["k2=c","k2=d"]]'', ''[["k1=a","k1=b"],["k2=c","k2=d"]]''),
          twoGroupsStore)\<close>
proof -
  have wf: "isBuilder twoGroupsStore 0"
    by (simp add: isBuilder_def isFacets_def isProp_def groupsOf_def twoGroupsStore_def)
  have view: \<open>spec_Serialize (builderView twoGroupsStore 0) = ''[["k1=a","k1=b"],["k2=c","k2=d"]]''\<close>
    by (simp add: spec_Serialize_def spec_group_def builderView_def groupsOf_def clausesOf_def
        twoGroupsStore_def)
  have run: \<open>facets_String 0 twoGroupsStore =
               Inr (''[["k1=a","k1=b"],["k2=c","k2=d"]]'', twoGroupsStore)\<close>
    using facets_String_ok [OF wf] view by simp
  from serialization_has_no_effect [of 0 twoGroupsStore 0] wf run show ?thesis
    by simp
qed



text \<open>
  Claim C8. The string a build script prints is the specified serialization of the
  script's own clause lists in the script's own order, so it is the same in whatever
  store the script is run: two builders built by the same sequence of calls print the
  same string. Two well-formed builders that hold the same clause lists in the same
  order print the same string. Nothing is sorted: the script with the group for
  \<open>k1\<close> before the group for \<open>k2\<close> and the script with the two groups in the other
  order print different strings.
\<close>

theorem output_is_a_function_of_insertion_order:
  \<open>resultOf (buildAndSerialize gs s) = Some (spec_Serialize (scriptView gs)) \<and>
   resultOf (buildAndSerialize gs s1) = resultOf (buildAndSerialize gs s2) \<and>
   (isBuilder s1 b1 \<and> isBuilder s2 b2 \<and> builderView s1 b1 = builderView s2 b2 \<longrightarrow>
      resultOf (facets_String b1 s1) = resultOf (facets_String b2 s2)) \<and>
   resultOf (buildAndSerialize [groupK1, groupK2] s) = Some ''[["k1=a"],["k2=b"]]'' \<and>
   resultOf (buildAndSerialize [groupK2, groupK1] s) = Some ''[["k2=b"],["k1=a"]]'' \<and>
   resultOf (buildAndSerialize [groupK1, groupK2] s) \<noteq>
     resultOf (buildAndSerialize [groupK2, groupK1] s)\<close>
proof -
  have same: "resultOf (facets_String b1 s1) = resultOf (facets_String b2 s2)"
    if "isBuilder s1 b1" "isBuilder s2 b2" "builderView s1 b1 = builderView s2 b2"
    using that by (simp add: facets_String_ok resultOf_def)
  have k12: \<open>spec_Serialize (scriptView [groupK1, groupK2]) = ''[["k1=a"],["k2=b"]]''\<close>
    by (simp add: spec_Serialize_def spec_group_def scriptView_def callsClauses_def
        spec_clause_def groupK1_def groupK2_def)
  have k21: \<open>spec_Serialize (scriptView [groupK2, groupK1]) = ''[["k2=b"],["k1=a"]]''\<close>
    by (simp add: spec_Serialize_def spec_group_def scriptView_def callsClauses_def
        spec_clause_def groupK1_def groupK2_def)
  from same k12 k21 show ?thesis
    by (simp add: buildAndSerialize_ok)
qed

theorem output_is_a_function_of_insertion_order_witness:
  \<open>isBuilder twoGroupsStore 0 \<and> isBuilder twoGroupsOtherStore 1 \<and>
   builderView twoGroupsStore 0 = builderView twoGroupsOtherStore 1 \<and>
   resultOf (facets_String 0 twoGroupsStore) = resultOf (facets_String 1 twoGroupsOtherStore) \<and>
   resultOf (buildAndSerialize [groupK1, groupK2] emptyStore) = Some ''[["k1=a"],["k2=b"]]'' \<and>
   resultOf (buildAndSerialize [groupK2, groupK1] emptyStore) = Some ''[["k2=b"],["k1=a"]]''\<close>
proof -
  have wf: "isBuilder twoGroupsStore 0 \<and> isBuilder twoGroupsOtherStore 1"
    by (simp add: isBuilder_def isFacets_def isProp_def groupsOf_def twoGroupsStore_def
        twoGroupsOtherStore_def)
  have view: "builderView twoGroupsStore 0 = builderView twoGroupsOtherStore 1"
    by (simp add: builderView_def groupsOf_def clausesOf_def twoGroupsStore_def
        twoGroupsOtherStore_def)
  from output_is_a_function_of_insertion_order
    [where gs = "[groupK1, groupK2]" and s = emptyStore and ?s1.0 = twoGroupsStore and ?b1.0 = 0
      and ?s2.0 = twoGroupsOtherStore and ?b2.0 = 1]
    wf view
  show ?thesis
    by blast
qed

text \<open>
  Claim C9. A comparison with an empty clause list, as a constructor returns it, prints
  as the empty string. A group of one such comparison prints as \<open>[]\<close>; a group of
  one such comparison followed by a comparison with the single clause \<open>c\<close> prints as
  \<open>[,c]\<close>. For the clause \<^verbatim>\<open>"key=value"\<close> that is \<^verbatim>\<open>[,"key=value"]\<close>, which is
  not a group of the output grammar (\<^verbatim>\<open>["key=value"]\<close> is one), and the builder
  holding that group prints \<^verbatim>\<open>[[,"key=value"]]\<close>, which the grammar does not
  derive either.
\<close>

theorem fresh_comparison_renders_empty:
  \<open>(isProp s p \<and> clausesOf s p = [] \<longrightarrow>
      facetProp_String p s = Inr ([], s) \<and>
      facets_String_group [p] i s = Inr (''[]'', s) \<and>
      (isProp s q \<and> clausesOf s q = [c] \<longrightarrow>
         facets_String_group [p, q] i s = Inr (''[,'' @ c @ '']'', s))) \<and>
   resultOf (bindP (newFacetProp k) facetProp_String s) = Some [] \<and>
   resultOf (freshMemberExample s) = Some ''[[,"key=value"]]'' \<and>
   \<not> grammar_group ''[,"key=value"]'' \<and>
   \<not> grammar_outer ''[[,"key=value"]]'' \<and>
   grammar_group ''["key=value"]''\<close>
proof -
  have fresh: "resultOf (bindP (newFacetProp k) facetProp_String s) = Some []"
    by (simp add: resultOf_def bindP_def retP_def newFacetProp_def newProp_def
        facetProp_String_def loadProp_def)
  have one: "facetProp_String p s = Inr ([], s) \<and> facets_String_group [p] i s = Inr (''[]'', s)"
    if "isProp s p" "clausesOf s p = []"
    using that facetProp_String_ok [of s p] facets_String_group_ok [of s "[p]" i]
    by (simp add: spec_group_def)
  have two: "facets_String_group [p, q] i s = Inr (''[,'' @ c @ '']'', s)"
    if "isProp s p" "clausesOf s p = []" "isProp s q" "clausesOf s q = [c]"
    using that facets_String_group_ok [of s "[p, q]" i]
    by (simp add: spec_group_def)
  from fresh one two show ?thesis
    by (simp add: freshMemberExample_run bare_comma_not_group bare_comma_not_outer
        one_clause_group)
qed

theorem fresh_comparison_renders_empty_witness:
  \<open>isProp freshMemberStore 0 \<and> clausesOf freshMemberStore 0 = [] \<and>
   isProp freshMemberStore 1 \<and> clausesOf freshMemberStore 1 = [''"key=value"''] \<and>
   facetProp_String 0 freshMemberStore = Inr ([], freshMemberStore) \<and>
   facets_String_group [0] 0 freshMemberStore = Inr (''[]'', freshMemberStore) \<and>
   facets_String_group [0, 1] 0 freshMemberStore = Inr (''[,"key=value"]'', freshMemberStore)\<close>
proof -
  have pre: \<open>isProp freshMemberStore 0 \<and> clausesOf freshMemberStore 0 = [] \<and>
             isProp freshMemberStore 1 \<and> clausesOf freshMemberStore 1 = [''"key=value"'']\<close>
    by (simp add: isProp_def clausesOf_def freshMemberStore_def)
  from fresh_comparison_renders_empty [of freshMemberStore 0 0 1 \<open>''"key=value"''\<close>] pre
  show ?thesis
    by simp
qed

text \<open>
  Claim C10. Each of the six package-level constructors returns the address of a new
  comparison with its fixed key and an empty clause list, and leaves every object that
  existed as it was; the address is none of the addresses allocated before, so two
  invocations never return the same instance. Adding clauses to one comparison changes
  neither the clause list nor the key of any other.
\<close>

theorem constructors_return_fresh_independent_instances:
  "ProjectType s = Inr (length (propObjs s),
                        s\<lparr>propObjs := propObjs s @ [\<lparr>key = ''project_type'', state = []\<rparr>]\<rparr>) \<and>
   Versions s = Inr (length (propObjs s),
                     s\<lparr>propObjs := propObjs s @ [\<lparr>key = ''versions'', state = []\<rparr>]\<rparr>) \<and>
   Categories s = Inr (length (propObjs s),
                       s\<lparr>propObjs := propObjs s @ [\<lparr>key = ''categories'', state = []\<rparr>]\<rparr>) \<and>
   ClientSide s = Inr (length (propObjs s),
                       s\<lparr>propObjs := propObjs s @ [\<lparr>key = ''client_side'', state = []\<rparr>]\<rparr>) \<and>
   ServerSide s = Inr (length (propObjs s),
                       s\<lparr>propObjs := propObjs s @ [\<lparr>key = ''server_side'', state = []\<rparr>]\<rparr>) \<and>
   OpenSource s = Inr (length (propObjs s),
                       s\<lparr>propObjs := propObjs s @ [\<lparr>key = ''open_source'', state = []\<rparr>]\<rparr>) \<and>
   (\<forall>n s'. newFacetProp k s = Inr (n, s') \<longrightarrow>
      \<not> isProp s n \<and> isProp s' n \<and> keyOf s' n = k \<and> clausesOf s' n = [] \<and>
      (\<forall>q. isProp s q \<longrightarrow>
         q \<noteq> n \<and> isProp s' q \<and> keyOf s' q = keyOf s q \<and> clausesOf s' q = clausesOf s q)) \<and>
   (isProp s p \<and> q \<noteq> p \<longrightarrow>
      (\<exists>s'. callOp opr p vs s = Inr (p, s') \<and>
            clausesOf s' p = clausesOf s p @ map (spec_clause (keyOf s p) opr) vs \<and>
            clausesOf s' q = clausesOf s q \<and> keyOf s' q = keyOf s q))"
proof -
  have ctors: "ProjectType = newFacetProp ''project_type''" "Versions = newFacetProp ''versions''"
    "Categories = newFacetProp ''categories''" "ClientSide = newFacetProp ''client_side''"
    "ServerSide = newFacetProp ''server_side''" "OpenSource = newFacetProp ''open_source''"
    by (simp_all add: ProjectType_def Versions_def Categories_def ClientSide_def ServerSide_def
        OpenSource_def)
  have indep: "\<exists>s'. callOp opr p vs s = Inr (p, s') \<and>
            clausesOf s' p = clausesOf s p @ map (spec_clause (keyOf s p) opr) vs \<and>
            clausesOf s' q = clausesOf s q \<and> keyOf s' q = keyOf s q"
    if "isProp s p" "q \<noteq> p"
    using that by (simp add: callOp_ok clausesOf_withClauses_same clausesOf_withClauses_other)
  have fresh: "\<forall>n s'. newFacetProp k s = Inr (n, s') \<longrightarrow>
      \<not> isProp s n \<and> isProp s' n \<and> keyOf s' n = k \<and> clausesOf s' n = [] \<and>
      (\<forall>q. isProp s q \<longrightarrow>
         q \<noteq> n \<and> isProp s' q \<and> keyOf s' q = keyOf s q \<and> clausesOf s' q = clausesOf s q)"
    using newFacetProp_fresh [of k s] by blast
  from indep fresh show ?thesis
    unfolding ctors newFacetProp_run by blast
qed

theorem constructors_return_fresh_independent_instances_witness:
  \<open>Categories categoriesStore = Inr (1, twoCategoriesStore) \<and>
   isProp categoriesStore 0 \<and> \<not> isProp categoriesStore 1 \<and>
   isProp twoCategoriesStore 0 \<and> isProp twoCategoriesStore 1 \<and>
   keyOf twoCategoriesStore 1 = ''categories'' \<and> clausesOf twoCategoriesStore 1 = [] \<and>
   (\<exists>s'. Equal 0 [''fabric''] twoCategoriesStore = Inr (0, s') \<and>
         clausesOf s' 0 = [''"categories=fabric"''] \<and> clausesOf s' 1 = [])\<close>
proof -
  have new: "newFacetProp ''categories'' categoriesStore = Inr (1, twoCategoriesStore)"
    by (simp add: newFacetProp_def newProp_def categoriesStore_def twoCategoriesStore_def)
  have old: "isProp categoriesStore 0"
    by (simp add: isProp_def categoriesStore_def)
  have pre: "isProp twoCategoriesStore 0 \<and> (1::nat) \<noteq> 0"
    by (simp add: isProp_def twoCategoriesStore_def)
  have before: "clausesOf twoCategoriesStore 0 = [] \<and> clausesOf twoCategoriesStore 1 = [] \<and>
                keyOf twoCategoriesStore 0 = ''categories''"
    by (simp add: clausesOf_def keyOf_def twoCategoriesStore_def)
  have a: "\<not> isProp categoriesStore 1 \<and> isProp twoCategoriesStore 1 \<and>
           keyOf twoCategoriesStore 1 = ''categories''"
    using constructors_return_fresh_independent_instances
      [of categoriesStore "''categories''" 0 1 EqualOp "[]"] new
    by blast
  have b: \<open>\<exists>s'. Equal 0 [''fabric''] twoCategoriesStore = Inr (0, s') \<and>
         clausesOf s' 0 = [''"categories=fabric"''] \<and> clausesOf s' 1 = []\<close>
    using constructors_return_fresh_independent_instances
      [of twoCategoriesStore "''categories''" 0 1 EqualOp "[''fabric'']"] pre before
    by (auto simp add: spec_clause_def)
  from a b new old pre before show ?thesis
    by (simp add: Categories_def)
qed

end
